theory Spec2Isabelle
  imports
    Main
    "HOL-Library.Finite_Map"
    "HOL-Library.Sublist"
    "HOL-Library.Char_ord"
    "HOL-Library.List_Lexorder"
begin

section \<open>Strings\<close>

text \<open>
  A Go string is a sequence of bytes, and so is \<^typ>\<open>string\<close>: \<open>length\<close> counts bytes,
  which is what \<^verbatim>\<open>len([]byte(val))\<close> counts. The order on \<^typ>\<open>string\<close> (from
  \<open>List_Lexorder\<close> over \<open>Char_ord\<close>) compares byte by byte, as Go's \<^verbatim>\<open><\<close> on strings
  and \<^verbatim>\<open>sort.Strings\<close> do; \<open>bytes_le\<close> below writes that comparison out.
\<close>

abbreviation quote :: char where
  "quote \<equiv> CHR 0x27"

abbreviation backslash :: char where
  "backslash \<equiv> CHR 0x5C"

abbreviation newline :: char where
  "newline \<equiv> CHR 0x0A"

text \<open>
  The seven bytes the serializer writes for a newline under \<open>EscapeNewlines\<close>:
  quote, dollar, quote, backslash, n, quote, quote.
\<close>

abbreviation newline_idiom :: string where
  "newline_idiom \<equiv> [quote, CHR ''$'', quote, backslash, CHR ''n'', quote, quote]"

fun bytes_le :: "string \<Rightarrow> string \<Rightarrow> bool" where
  "bytes_le [] ys = True"
| "bytes_le (x # xs) [] = False"
| "bytes_le (x # xs) (y # ys) =
     ((of_char x :: nat) < of_char y \<or> (x = y \<and> bytes_le xs ys))"

text \<open>
  \<^verbatim>\<open>strings.Replace(s, old, new, -1)\<close>: every non-overlapping occurrence of \<open>old\<close> in
  \<open>s\<close>, found from left to right, is replaced by \<open>new\<close>. Both calls in this package pass a
  one-byte \<open>old\<close>; what Go does at an empty \<open>old\<close> (an insertion at every rune boundary)
  is not reached and is not modelled: the function leaves \<open>s\<close> as it is there.
\<close>

fun Replace :: "string \<Rightarrow> string \<Rightarrow> string \<Rightarrow> string" where
  "Replace [] old new = []"
| "Replace (c # cs) old new =
     (if old \<noteq> [] \<and> prefix old (c # cs)
      then new @ Replace (drop (length old) (c # cs)) old new
      else c # Replace cs old new)"

text \<open>\<^verbatim>\<open>strings.Join(elems, sep)\<close>.\<close>

fun Join :: "string list \<Rightarrow> string \<Rightarrow> string" where
  "Join [] sep = []"
| "Join [x] sep = x"
| "Join (x # y # ys) sep = x @ sep @ Join (y # ys) sep"

text \<open>
  \<^verbatim>\<open>strings.Replace(value, "'", "'\\''", -1)\<close>: the replacement is the four bytes
  quote, backslash, quote, quote.
\<close>

definition SingleQuoteEscape :: "string \<Rightarrow> string" where
  "SingleQuoteEscape v = Replace v [quote] [quote, backslash, quote, quote]"

section \<open>The Env store\<close>

text \<open>
  The Go map \<^verbatim>\<open>map[string]string\<close> is a finite map. A missing key reads as the empty
  string (\<open>index\<close>, Go's \<^verbatim>\<open>m[k]\<close>) or as the pair of the empty string and false
  (\<open>Get\<close>, Go's \<^verbatim>\<open>v, ok := m[k]\<close>).
\<close>

record Env =
  name :: string
  env :: "(string, string) fmap"
  filename :: string
  EscapeNewlines :: bool

definition index :: "(string, string) fmap \<Rightarrow> string \<Rightarrow> string" where
  "index m k = (case fmlookup m k of None \<Rightarrow> [] | Some v \<Rightarrow> v)"

definition Set :: "Env \<Rightarrow> string \<Rightarrow> string \<Rightarrow> Env" where
  "Set e key v = e\<lparr>env := fmupd key v (env e)\<rparr>"

definition Unset :: "Env \<Rightarrow> string \<Rightarrow> Env" where
  "Unset e key = e\<lparr>env := fmdrop key (env e)\<rparr>"

text \<open>
  \<open>Keys\<close>: the \<^verbatim>\<open>range\<close> loop appends every key of the map once, in an order Go leaves
  open, and \<^verbatim>\<open>sort.Strings\<close> sorts the slice. Sorting any enumeration of a set of
  distinct keys gives one list (lemma \<open>sort_enumeration\<close> below), which is
  \<open>sorted_list_of_fset\<close> of the key set.
\<close>

definition Keys :: "Env \<Rightarrow> string list" where
  "Keys e = sorted_list_of_fset (fmdom (env e))"

definition Get :: "Env \<Rightarrow> string \<Rightarrow> string \<times> bool" where
  "Get e key = (case fmlookup (env e) key of None \<Rightarrow> ([], False) | Some v \<Rightarrow> (v, True))"

definition GetDefault :: "Env \<Rightarrow> string \<Rightarrow> string \<Rightarrow> string" where
  "GetDefault e key defaultValue =
     (case fmlookup (env e) key of None \<Rightarrow> defaultValue | Some v \<Rightarrow> v)"

definition GetBoolDefault :: "Env \<Rightarrow> string \<Rightarrow> bool \<Rightarrow> bool" where
  "GetBoolDefault e key defaultValue =
     (let (v, ok) = Get e key in if \<not> ok then defaultValue else v \<noteq> ''0'')"

definition Len :: "Env \<Rightarrow> nat" where
  "Len e = fcard (fmdom (env e))"

definition Map :: "Env \<Rightarrow> (string, string) fmap" where
  "Map e = env e"

text \<open>
  \<open>Merge\<close> mutates the receiver key by key; \<open>other\<close> is only read. The keys are taken
  before the loop starts, so a receiver merged into itself is set to its own values.
\<close>

definition Merge :: "Env \<Rightarrow> Env \<Rightarrow> Env" where
  "Merge e other = fold (\<lambda>k e'. Set e' k (GetDefault other k [])) (Keys other) e"

section \<open>Textual serialization\<close>

text \<open>
  One turn of the loop of \<open>StringWithPrefixAndSeparator\<close>: the value is quote-escaped,
  then, under the flag, each newline becomes the seven bytes
  quote, dollar, quote, backslash, n, quote, quote; \<^verbatim>\<open>fmt.Sprintf("%s%s='%s'", ...)\<close>
  concatenates.
\<close>

definition entry_value :: "Env \<Rightarrow> string \<Rightarrow> string" where
  "entry_value e k =
     (let v = SingleQuoteEscape (index (env e) k)
      in if EscapeNewlines e
         then Replace v [newline] [quote, CHR ''$'', quote, backslash, CHR ''n'', quote, quote]
         else v)"

definition entry :: "Env \<Rightarrow> string \<Rightarrow> string \<Rightarrow> string" where
  "entry e pre k = pre @ k @ [CHR ''='', quote] @ entry_value e k @ [quote]"

definition StringWithPrefixAndSeparator :: "Env \<Rightarrow> string \<Rightarrow> string \<Rightarrow> string" where
  "StringWithPrefixAndSeparator e pre separator = Join (map (entry e pre) (Keys e)) separator"

definition EnvfileString :: "Env \<Rightarrow> string" where
  "EnvfileString e = StringWithPrefixAndSeparator e [] [newline]"

definition ExportfileString :: "Env \<Rightarrow> string" where
  "ExportfileString e = StringWithPrefixAndSeparator e ''export '' [newline]"

definition String :: "Env \<Rightarrow> string" where
  "String e = EnvfileString e"

section \<open>Errors\<close>

text \<open>
  Go's \<^verbatim>\<open>error\<close> values that this package makes or passes on: \<^verbatim>\<open>errors.New\<close> with
  its message, the \<^verbatim>\<open>*os.PathError\<close> of a failed file operation (operation and path),
  the errors of \<^verbatim>\<open>archive/tar\<close> (content beyond the size, content missing, a header
  it cannot encode), the error of a destination writer, and the error of the parser with
  the offending line. \<open>None\<close> of \<open>error option\<close> is Go's \<^verbatim>\<open>nil\<close>.
\<close>

datatype error =
    Errors_New string
  | PathError string string
  | ErrWriteTooLong
  | ErrMissedWriting
  | ErrHeader
  | ErrDest
  | ParseError string

section \<open>Archive export\<close>

text \<open>
  \<^verbatim>\<open>archive/tar\<close> is modelled at the level of its calls, not of the bytes: the
  writer's state is the list of entries it has written, each a header and the content
  received for it. Of a header the package sets the name, the mode and the size; the type
  flag is left at zero, and the library then takes a name that ends in a slash for a
  directory: a header-only entry, which accepts no content whatever its \<open>Size\<close>. A name
  with a NUL byte can be encoded in none of the library's formats: \<open>WriteHeader\<close>
  refuses the header, with an error that is not sticky, and no entry is begun.

  The destination \<^verbatim>\<open>io.Writer\<close> is described by \<open>room\<close>, the number of calls of the
  writer (\<open>WriteHeader\<close>, a \<open>Write\<close> of at least one byte, \<open>Close\<close>) it carries through
  before one of its writes fails (\<open>None\<close>: it never fails); the writes a call issues
  (padding, header blocks, content) are not counted apart. A failed write makes the
  writer's error sticky, as \<^verbatim>\<open>tar.Writer\<close> does; a header is refused while the
  previous entry is short of its \<open>Size\<close>, and content beyond what the entry accepts is
  cut off with \<^verbatim>\<open>ErrWriteTooLong\<close>.
\<close>

record Header =
  Name :: string
  Mode :: int
  Size :: int

record tarWriter =
  archive :: "(Header \<times> string) list"
  room :: "nat option"
  err :: "error option"
  closed :: bool

definition NewWriter :: "nat option \<Rightarrow> tarWriter" where
  "NewWriter dest = \<lparr>archive = [], room = dest, err = None, closed = False\<rparr>"

definition dest_full :: "tarWriter \<Rightarrow> bool" where
  "dest_full tw = (room tw = Some 0)"

definition dest_used :: "tarWriter \<Rightarrow> tarWriter" where
  "dest_used tw = tw\<lparr>room := map_option (\<lambda>n. n - 1) (room tw)\<rparr>"

definition header_only :: "Header \<Rightarrow> bool" where
  "header_only hdr = suffix ''/'' (Name hdr)"

definition refused :: "Header \<Rightarrow> bool" where
  "refused hdr = (CHR 0x00 \<in> set (Name hdr))"

definition remaining :: "tarWriter \<Rightarrow> int" where
  "remaining tw =
     (case rev (archive tw) of
        [] \<Rightarrow> 0
      | (h, c) # _ \<Rightarrow> if header_only h then 0 else Size h - int (length c))"

definition WriteHeader :: "tarWriter \<Rightarrow> Header \<Rightarrow> error option \<times> tarWriter" where
  "WriteHeader tw hdr =
     (if err tw \<noteq> None then (err tw, tw)
      else if 0 < remaining tw then (Some ErrMissedWriting, tw)
      else if dest_full tw then (Some ErrDest, tw\<lparr>err := Some ErrDest\<rparr>)
      else if refused hdr then (Some ErrHeader, dest_used tw)
      else (None, dest_used (tw\<lparr>archive := archive tw @ [(hdr, [])]\<rparr>)))"

definition Write_tar :: "tarWriter \<Rightarrow> string \<Rightarrow> (nat \<times> error option) \<times> tarWriter" where
  "Write_tar tw b =
     (if err tw \<noteq> None then ((0, err tw), tw)
      else
        let b' = take (nat (remaining tw)) b;
            too_long = (if length b' < length b then Some ErrWriteTooLong else None)
        in if b' = [] then ((0, too_long), tw)
           else if dest_full tw then ((0, Some ErrDest), tw\<lparr>err := Some ErrDest\<rparr>)
           else ((length b', too_long),
                 dest_used (tw\<lparr>archive :=
                   butlast (archive tw) @
                     [(fst (last (archive tw)), snd (last (archive tw)) @ b')]\<rparr>)))"

definition Close_tar :: "tarWriter \<Rightarrow> error option \<times> tarWriter" where
  "Close_tar tw =
     (if err tw \<noteq> None then (err tw, tw\<lparr>closed := True\<rparr>)
      else if 0 < remaining tw then (Some ErrMissedWriting, tw\<lparr>closed := True\<rparr>)
      else if dest_full tw then (Some ErrDest, tw\<lparr>err := Some ErrDest, closed := True\<rparr>)
      else (None, dest_used (tw\<lparr>closed := True\<rparr>)))"

text \<open>
  One turn of the loop of \<open>ExportBundle\<close>: the results of \<open>WriteHeader\<close> and of
  \<open>Write\<close> are dropped, as in the source. \<open>0600\<close> is octal, 384.
\<close>

definition export_entry :: "Env \<Rightarrow> string \<Rightarrow> tarWriter \<Rightarrow> tarWriter" where
  "export_entry e k tarfile =
     (let (val, _) = Get e k;
          valbin = val;
          header = \<lparr>Name = k, Mode = 384, Size = int (length valbin)\<rparr>;
          tarfile1 = snd (WriteHeader tarfile header);
          tarfile2 = snd (Write_tar tarfile1 valbin)
      in tarfile2)"

text \<open>
  \<open>ExportBundle\<close> returns \<^verbatim>\<open>nil\<close> on every path; the deferred \<^verbatim>\<open>tarfile.Close()\<close>
  runs on return and its result is dropped too. The second component is the writer the
  call leaves behind.
\<close>

definition ExportBundle :: "Env \<Rightarrow> nat option \<Rightarrow> error option \<times> tarWriter" where
  "ExportBundle e dest =
     (let tarfile = NewWriter dest;
          tarfile' = fold (export_entry e) (Keys e) tarfile
      in (None, snd (Close_tar tarfile')))"

section \<open>Persistence\<close>

text \<open>
  The file system: the content of every existing path, the log of the operations issued
  (oldest first), and the faults of the medium: the paths that cannot be created; for a
  path whose writes fail, the number of bytes a write still gets through at most
  (\<open>None\<close>: writes succeed); and the paths whose close fails.
\<close>

datatype fs_op = OpCreate string | OpWrite string string | OpClose string

record FS =
  files :: "string \<rightharpoonup> string"
  ops :: "fs_op list"
  create_fails :: "string \<Rightarrow> bool"
  write_fault :: "string \<Rightarrow> nat option"
  close_fails :: "string \<Rightarrow> bool"

text \<open>
  \<^verbatim>\<open>os.Create(name)\<close> opens with \<^verbatim>\<open>O_RDWR|O_CREATE|O_TRUNC\<close>: on success the file
  exists and is empty. The handle is the path.
\<close>

definition os_Create :: "FS \<Rightarrow> string \<Rightarrow> (error + string) \<times> FS" where
  "os_Create fs path =
     (let fs' = fs\<lparr>ops := ops fs @ [OpCreate path]\<rparr>
      in if create_fails fs path then (Inl (PathError ''open'' path), fs')
         else (Inr path, fs'\<lparr>files := (files fs)(path \<mapsto> [])\<rparr>))"

definition file_WriteString :: "FS \<Rightarrow> string \<Rightarrow> string \<Rightarrow> (nat \<times> error option) \<times> FS" where
  "file_WriteString fs file s =
     (let old = (case files fs file of None \<Rightarrow> [] | Some c \<Rightarrow> c);
          fs' = fs\<lparr>ops := ops fs @ [OpWrite file s]\<rparr>
      in case write_fault fs file of
           None \<Rightarrow> ((length s, None), fs'\<lparr>files := (files fs)(file \<mapsto> old @ s)\<rparr>)
         | Some n \<Rightarrow>
             ((min n (length s), Some (PathError ''write'' file)),
              fs'\<lparr>files := (files fs)(file \<mapsto> old @ take n s)\<rparr>))"

text \<open>\<^verbatim>\<open>(*os.File).Close\<close> returns an error when the close fails.\<close>

definition file_Close :: "FS \<Rightarrow> string \<Rightarrow> error option \<times> FS" where
  "file_Close fs file =
     (if close_fails fs file then Some (PathError ''close'' file) else None,
      fs\<lparr>ops := ops fs @ [OpClose file]\<rparr>)"

text \<open>
  \<open>Write\<close>: the deferred \<^verbatim>\<open>file.Close()\<close> runs on every return after
  \<^verbatim>\<open>os.Create\<close>; on a nil file (creation failed) it returns at once without a system
  call. Its result is dropped on every path: \<open>Write\<close> returns the error of
  \<^verbatim>\<open>os.Create\<close> or of \<^verbatim>\<open>WriteString\<close>.
\<close>

definition Write :: "Env \<Rightarrow> FS \<Rightarrow> error option \<times> FS" where
  "Write e fs =
     (if filename e = [] then (Some (Errors_New ''this Env was created unbound to a file''), fs)
      else case os_Create fs (filename e) of
             (Inl er, fs1) \<Rightarrow> (Some er, fs1)
           | (Inr file, fs1) \<Rightarrow>
               (let ((_, er), fs2) = file_WriteString fs1 file (ExportfileString e);
                    (_, fs3) = file_Close fs2 file
                in (er, fs3)))"

section \<open>Parsing\<close>

text \<open>
  Modelled from the spec: \<open>parseEnvFromReader\<close>, which \<open>NewFromString\<close> calls, is in a
  file of this package that is not part of the available source. The spec's section on
  parsing gives it: the input is read line by line; a blank line is skipped; a leading
  \<open>export \<close> token is dropped; what is left must have the shape \<open>KEY='...'\<close>, the quoted
  content written with the inverse of the escaping of the serializer: a quote in it
  begins either the four bytes quote, backslash, quote, quote, which stand for one quote,
  or the seven bytes of the newline idiom, which stand for one newline; any other line
  is a parse error that names the line, and parsing halts at the first one; every
  assignment line is reflected in the entries, a later one for the same key replacing an
  earlier one. The key is the text before the first \<open>=\<close> and is not empty.
\<close>

fun split_lines :: "string \<Rightarrow> string list" where
  "split_lines [] = [[]]"
| "split_lines (c # cs) =
     (if c = newline then [] # split_lines cs
      else (case split_lines cs of [] \<Rightarrow> [[c]] | l # ls \<Rightarrow> (c # l) # ls))"

fun unescape :: "string \<Rightarrow> string option" where
  "unescape [] = Some []"
| "unescape (c # cs) =
     (if c = quote
      then (if take 3 cs = [backslash, quote, quote]
            then map_option ((#) quote) (unescape (drop 3 cs))
            else if take 6 cs = [CHR ''$'', quote, backslash, CHR ''n'', quote, quote]
            then map_option ((#) newline) (unescape (drop 6 cs))
            else None)
      else map_option ((#) c) (unescape cs))"

definition blank :: "string \<Rightarrow> bool" where
  "blank l = list_all (\<lambda>c. c = CHR '' '' \<or> c = CHR 0x09) l"

definition parse_line :: "string \<Rightarrow> error + (string \<times> string) option" where
  "parse_line line =
     (if blank line then Inr None
      else
        let l = (if prefix ''export '' line then drop 7 line else line);
            key = takeWhile (\<lambda>c. c \<noteq> CHR ''='') l;
            rest = drop (Suc (length key)) l
        in if length key < length l \<and> key \<noteq> [] \<and> 2 \<le> length rest \<and>
              hd rest = quote \<and> last rest = quote
           then (case unescape (butlast (tl rest)) of
                   None \<Rightarrow> Inl (ParseError line)
                 | Some v \<Rightarrow> Inr (Some (key, v)))
           else Inl (ParseError line))"

fun parse_lines :: "string list \<Rightarrow> (string, string) fmap \<Rightarrow> error + (string, string) fmap" where
  "parse_lines [] m = Inr m"
| "parse_lines (l # ls) m =
     (case parse_line l of
        Inl er \<Rightarrow> Inl er
      | Inr None \<Rightarrow> parse_lines ls m
      | Inr (Some (k, v)) \<Rightarrow> parse_lines ls (fmupd k v m))"

definition parseEnvFromReader :: "string \<Rightarrow> string \<Rightarrow> string \<Rightarrow> error + Env" where
  "parseEnvFromReader nm fname rep =
     (case parse_lines (split_lines rep) fmempty of
        Inl er \<Rightarrow> Inl er
      | Inr m \<Rightarrow> Inr \<lparr>name = nm, env = m, filename = fname, EscapeNewlines = False\<rparr>)"

definition NewFromString :: "string \<Rightarrow> error + Env" where
  "NewFromString rep = parseEnvFromReader ''<unknown>'' [] rep"

section \<open>Example environments\<close>

definition empty_env :: Env where
  "empty_env = \<lparr>name = ''app'', env = fmempty, filename = [], EscapeNewlines = False\<rparr>"

definition bool_env :: "string \<Rightarrow> Env" where
  "bool_env v = \<lparr>name = ''app'', env = fmap_of_list [(''K'', v)], filename = [],
     EscapeNewlines = False\<rparr>"

definition merge_receiver :: Env where
  "merge_receiver = \<lparr>name = ''app'', env = fmap_of_list [(''A'', ''1''), (''B'', ''2'')],
     filename = ''/home/dokku/app/ENV'', EscapeNewlines = False\<rparr>"

definition merge_other :: Env where
  "merge_other = \<lparr>name = ''global'', env = fmap_of_list [(''B'', ''9''), (''C'', ''3'')],
     filename = [], EscapeNewlines = True\<rparr>"

definition newline_env :: "bool \<Rightarrow> Env" where
  "newline_env flag = \<lparr>name = ''app'',
     env = fmap_of_list [(''A'', [CHR ''a'', newline, CHR ''b'']), (''B'', ''2'')],
     filename = [], EscapeNewlines = flag\<rparr>"

definition newline_key_env :: Env where
  "newline_key_env = \<lparr>name = ''app'',
     env = fmap_of_list [([CHR ''A'', newline, CHR ''B''], [CHR ''x'', newline, CHR ''y''])],
     filename = [], EscapeNewlines = True\<rparr>"

definition bundle_env :: Env where
  "bundle_env = \<lparr>name = ''app'', env = fmap_of_list [(''B'', ''y''), (''A'', ''x'')],
     filename = [], EscapeNewlines = False\<rparr>"

text \<open>
  The entry \<open>ExportBundle\<close> is to write for a key: the header it builds and the raw
  value.
\<close>

definition bundle_entry :: "Env \<Rightarrow> string \<Rightarrow> Header \<times> string" where
  "bundle_entry e k =
     (\<lparr>Name = k, Mode = 384, Size = int (length (index (env e) k))\<rparr>, index (env e) k)"

definition slash_key_env :: Env where
  "slash_key_env = \<lparr>name = ''app'', env = fmap_of_list [(''A/'', ''x'')],
     filename = [], EscapeNewlines = False\<rparr>"

definition nul_key_env :: Env where
  "nul_key_env = \<lparr>name = ''app'',
     env = fmap_of_list [([CHR ''A'', CHR 0x00], ''x''), (''B'', ''y'')],
     filename = [], EscapeNewlines = False\<rparr>"

definition bound_env :: Env where
  "bound_env = \<lparr>name = ''app'', env = fmap_of_list [(''A'', ''1'')],
     filename = ''/home/dokku/app/ENV'', EscapeNewlines = False\<rparr>"

definition disk :: "bool \<Rightarrow> nat option \<Rightarrow> bool \<Rightarrow> FS" where
  "disk no_create fault no_close =
     \<lparr>files = [''/home/dokku/app/ENV'' \<mapsto> ''export OLD=value''], ops = [],
      create_fails = (\<lambda>p. no_create), write_fault = (\<lambda>p. fault),
      close_fails = (\<lambda>p. no_close)\<rparr>"

definition quoted_env :: Env where
  "quoted_env = \<lparr>name = ''app'',
     env = fmap_of_list [(''B'', []), (''A'', ''it'' @ [quote] @ ''s'')],
     filename = ''/home/dokku/app/ENV'', EscapeNewlines = False\<rparr>"

definition multiline_env :: Env where
  "multiline_env = \<lparr>name = ''app'',
     env = fmap_of_list [(''B'', []), (''A'', ''it'' @ [quote] @ ''s'' @ [newline] @ ''ok'')],
     filename = ''/home/dokku/app/ENV'', EscapeNewlines = True\<rparr>"

definition export_key_env :: Env where
  "export_key_env = \<lparr>name = ''app'', env = fmap_of_list [(''export A'', ''v'')],
     filename = [], EscapeNewlines = False\<rparr>"

definition equals_key_env :: Env where
  "equals_key_env = \<lparr>name = ''app'', env = fmap_of_list [(''A=B'', ''v'')],
     filename = [], EscapeNewlines = False\<rparr>"

definition empty_key_env :: Env where
  "empty_key_env = \<lparr>name = ''app'', env = fmap_of_list [([], ''v'')],
     filename = [], EscapeNewlines = False\<rparr>"

section \<open>Properties\<close>

subsection \<open>Replacement of one byte\<close>

lemma Replace_byte:
  "Replace s [c] new = concat (map (\<lambda>x. if x = c then new else [x]) s)"
  by (induction s) auto

lemma SingleQuoteEscape_concat:
  "SingleQuoteEscape v =
     concat (map (\<lambda>x. if x = quote then [quote, backslash, quote, quote] else [x]) v)"
  by (simp add: SingleQuoteEscape_def Replace_byte)

lemma SingleQuoteEscape_Nil: "SingleQuoteEscape [] = []"
  by (simp add: SingleQuoteEscape_def)

lemma SingleQuoteEscape_Cons:
  "SingleQuoteEscape (c # cs) =
     (if c = quote then [quote, backslash, quote, quote] else [c]) @ SingleQuoteEscape cs"
  by (simp add: SingleQuoteEscape_concat)

lemma SingleQuoteEscape_append:
  "SingleQuoteEscape (xs @ ys) = SingleQuoteEscape xs @ SingleQuoteEscape ys"
  by (simp add: SingleQuoteEscape_concat)

lemma length_SingleQuoteEscape:
  "length (SingleQuoteEscape v) = length v + 3 * count_list v quote"
  by (induction v) (simp_all add: SingleQuoteEscape_Nil SingleQuoteEscape_Cons)

lemma count_SingleQuoteEscape:
  "count_list (SingleQuoteEscape v) quote = 3 * count_list v quote"
  by (induction v) (simp_all add: SingleQuoteEscape_Nil SingleQuoteEscape_Cons)

lemma count_list_0_iff: "count_list xs x = 0 \<longleftrightarrow> x \<notin> set xs"
  by (induction xs) auto

subsection \<open>Lookups\<close>

text \<open>
  C5. \<open>GetBoolDefault\<close> gives the default at an absent key; at a present key it is false
  exactly when the stored value is the string \<open>0\<close>, so true at the empty string, at
  \<open>false\<close> and at \<open>no\<close>.
\<close>

theorem GetBoolDefault_spec:
  "GetBoolDefault e key d =
     (case fmlookup (env e) key of None \<Rightarrow> d | Some v \<Rightarrow> v \<noteq> ''0'')"
  by (simp add: GetBoolDefault_def Get_def split: option.split)

theorem GetBoolDefault_spec_witness:
  "map (\<lambda>v. GetBoolDefault (bool_env v) ''K'' True) [''0'', [], ''false'', ''no''] =
     [False, True, True, True] \<and>
   GetBoolDefault (bool_env ''0'') ''J'' True \<and>
   GetBoolDefault (bool_env ''0'') ''J'' False = False"
proof -
  have l: "fmlookup (env (bool_env v)) ''K'' = Some v"
    "fmlookup (env (bool_env v)) ''J'' = None" for v
    by (simp_all add: bool_env_def fmlookup_of_list)
  show ?thesis
    by (simp add: GetBoolDefault_spec l)
qed

text \<open>
  C10. The default rendering \<open>String\<close> is the plain serialization: the entries
  \<open>KEY='value'\<close> of the sorted keys, with no prefix, joined by newlines.
\<close>

theorem String_is_EnvfileString:
  "String e = EnvfileString e \<and>
   String e = Join (map (\<lambda>k. k @ [CHR ''='', quote] @ entry_value e k @ [quote]) (Keys e)) [newline]"
proof -
  have "entry e [] = (\<lambda>k. k @ [CHR ''='', quote] @ entry_value e k @ [quote])"
    by (rule ext) (simp add: entry_def)
  then show ?thesis
    by (simp add: String_def EnvfileString_def StringWithPrefixAndSeparator_def)
qed

subsection \<open>Keys and the order of serialization\<close>

lemma bytes_le_iff: "bytes_le xs ys \<longleftrightarrow> xs \<le> ys"
  by (induction xs ys rule: bytes_le.induct) (auto simp: less_char_def less_eq_char_def)

lemma Keys_alt: "Keys e = sorted_list_of_set (fmdom' (env e))"
  by (simp add: Keys_def sorted_list_of_fset.rep_eq fmdom'_alt_def)

lemma finite_fmdom' [simp]: "finite (fmdom' m)"
  by (simp add: fmdom'_alt_def)

lemma sorted_Keys: "sorted (Keys e)"
  by (simp add: Keys_alt)

lemma distinct_Keys: "distinct (Keys e)"
  by (simp add: Keys_alt)

lemma set_Keys: "set (Keys e) = fmdom' (env e)"
  by (simp add: Keys_alt)

lemma sort_enumeration:
  "distinct ks \<Longrightarrow> set ks = fmdom' (env e) \<Longrightarrow> sort ks = Keys e"
  by (metis Keys_alt sorted_list_of_set_sort_remdups distinct_remdups_id)

lemma env_Set: "env (Set e k v) = fmupd k v (env e)"
  by (simp add: Set_def)

lemma dom_fold_Set:
  "fmdom' (env (fold (\<lambda>(k, v) e'. Set e' k v) kvs e)) = fmdom' (env e) \<union> fst ` set kvs"
  by (induction kvs arbitrary: e) (auto simp: env_Set)

lemma lookup_fold_Set:
  "distinct (map fst kvs) \<Longrightarrow>
   fmlookup (env (fold (\<lambda>(k, v) e'. Set e' k v) kvs e)) k =
     (case map_of kvs k of None \<Rightarrow> fmlookup (env e) k | Some v \<Rightarrow> Some v)"
proof (induction kvs arbitrary: e)
  case Nil
  then show ?case by simp
next
  case (Cons p kvs)
  obtain a b where p: "p = (a, b)" by (cases p)
  from Cons.prems p have notin: "a \<notin> fst ` set kvs" and d: "distinct (map fst kvs)"
    by auto
  from notin have none: "map_of kvs a = None"
    by (simp add: map_of_eq_None_iff)
  show ?case
    using Cons.IH [OF d, of "Set e a b"] none
    by (auto simp: p env_Set split: option.splits)
qed

lemma flag_Set: "EscapeNewlines (Set e k v) = EscapeNewlines e"
  by (simp add: Set_def)

lemma flag_fold_Set:
  "EscapeNewlines (fold (\<lambda>(k, v) e'. Set e' k v) kvs e) = EscapeNewlines e"
  by (induction kvs arbitrary: e) (simp_all add: flag_Set split_def)

lemma sorted_wrt_bytes_le: "sorted_wrt bytes_le xs = sorted xs"
  by (induction xs) (simp_all add: bytes_le_iff)

lemma sorted_wrt_bytes_le_Keys: "sorted_wrt bytes_le (Keys e)"
  by (simp only: sorted_wrt_bytes_le sorted_Keys)

lemma serial_cong:
  assumes "env e' = env e" "EscapeNewlines e' = EscapeNewlines e"
  shows "StringWithPrefixAndSeparator e' pre sep = StringWithPrefixAndSeparator e pre sep"
proof -
  have "entry e' pre = entry e pre"
    by (rule ext) (simp add: entry_def entry_value_def assms)
  moreover have "Keys e' = Keys e"
    by (simp add: Keys_def assms)
  ultimately show ?thesis
    by (simp add: StringWithPrefixAndSeparator_def)
qed

text \<open>
  C4. \<open>Keys\<close> is the list of all stored keys in ascending byte-wise lexicographic
  order, without repetition. It is what sorting gives from any order in which the map is
  iterated, and after any sequence of \<open>Set\<close> calls it depends only on the set of keys
  inserted. Both serializations join the entries of the keys in that order, so equal
  entries (under the same flag) give equal output, whatever the order of insertion.
\<close>

theorem Keys_sorted_deterministic:
  "sorted_wrt bytes_le (Keys e) \<and> distinct (Keys e) \<and> set (Keys e) = fmdom' (env e) \<and>
   (\<forall>ks. distinct ks \<and> set ks = fmdom' (env e) \<longrightarrow> sort ks = Keys e) \<and>
   Keys (fold (\<lambda>(k, v) e'. Set e' k v) kvs e) =
     sorted_list_of_set (fmdom' (env e) \<union> fst ` set kvs) \<and>
   (distinct (map fst kvs) \<and> distinct (map fst kvs') \<and> set kvs' = set kvs \<longrightarrow>
      EnvfileString (fold (\<lambda>(k, v) e'. Set e' k v) kvs' e) =
        EnvfileString (fold (\<lambda>(k, v) e'. Set e' k v) kvs e) \<and>
      ExportfileString (fold (\<lambda>(k, v) e'. Set e' k v) kvs' e) =
        ExportfileString (fold (\<lambda>(k, v) e'. Set e' k v) kvs e)) \<and>
   StringWithPrefixAndSeparator e pre sep = Join (map (entry e pre) (Keys e)) sep \<and>
   EnvfileString e = Join (map (entry e []) (Keys e)) [newline] \<and>
   ExportfileString e = Join (map (entry e ''export '') (Keys e)) [newline] \<and>
   (env e2 = env e \<and> EscapeNewlines e2 = EscapeNewlines e \<longrightarrow>
      EnvfileString e2 = EnvfileString e \<and> ExportfileString e2 = ExportfileString e)"
proof -
  let ?ins = "fold (\<lambda>(k, v) e'. Set e' k v)"
  have c1: "sorted_wrt bytes_le (Keys e)"
    by (rule sorted_wrt_bytes_le_Keys)
  have c2: "distinct (Keys e)"
    by (rule distinct_Keys)
  have c3: "set (Keys e) = fmdom' (env e)"
    by (rule set_Keys)
  have c4: "\<forall>ks. distinct ks \<and> set ks = fmdom' (env e) \<longrightarrow> sort ks = Keys e"
    by (intro allI impI) (erule conjE, rule sort_enumeration)
  have c5: "Keys (?ins kvs e) = sorted_list_of_set (fmdom' (env e) \<union> fst ` set kvs)"
    by (simp only: Keys_alt dom_fold_Set)
  have ins_order: "EnvfileString (?ins kvs' e) = EnvfileString (?ins kvs e) \<and>
      ExportfileString (?ins kvs' e) = ExportfileString (?ins kvs e)"
    if d: "distinct (map fst kvs)" and d': "distinct (map fst kvs')" and s: "set kvs' = set kvs"
  proof -
    from d d' s have "map_of kvs' = map_of kvs"
      by (simp only: map_of_inject_set)
    then have "fmlookup (env (?ins kvs' e)) k = fmlookup (env (?ins kvs e)) k" for k
      by (simp only: lookup_fold_Set [OF d] lookup_fold_Set [OF d'])
    then have "env (?ins kvs' e) = env (?ins kvs e)"
      by (rule fmap_ext)
    moreover have "EscapeNewlines (?ins kvs' e) = EscapeNewlines (?ins kvs e)"
      by (simp only: flag_fold_Set)
    ultimately show ?thesis
      unfolding EnvfileString_def ExportfileString_def
      by (intro conjI serial_cong)
  qed
  have c6: "distinct (map fst kvs) \<and> distinct (map fst kvs') \<and> set kvs' = set kvs \<longrightarrow>
      EnvfileString (?ins kvs' e) = EnvfileString (?ins kvs e) \<and>
      ExportfileString (?ins kvs' e) = ExportfileString (?ins kvs e)"
    by (intro impI, elim conjE) (rule ins_order)
  have c7: "StringWithPrefixAndSeparator e pre sep = Join (map (entry e pre) (Keys e)) sep"
    by (rule StringWithPrefixAndSeparator_def)
  have c8: "EnvfileString e = Join (map (entry e []) (Keys e)) [newline]"
    by (simp only: EnvfileString_def StringWithPrefixAndSeparator_def)
  have c9: "ExportfileString e = Join (map (entry e ''export '') (Keys e)) [newline]"
    by (simp only: ExportfileString_def StringWithPrefixAndSeparator_def)
  have c10: "env e2 = env e \<and> EscapeNewlines e2 = EscapeNewlines e \<longrightarrow>
      EnvfileString e2 = EnvfileString e \<and> ExportfileString e2 = ExportfileString e"
    unfolding EnvfileString_def ExportfileString_def
    by (intro impI, elim conjE) (intro conjI serial_cong)
  show ?thesis
    by (intro conjI) (rule c1, rule c2, rule c3, rule c4, rule c5, rule c6, rule c7,
        rule c8, rule c9, rule c10)
qed

theorem Keys_sorted_deterministic_witness:
  "sort [''b'', ''B'', ''a''] = [''B'', ''a'', ''b''] \<and>
   Keys (fold (\<lambda>(k, v) e'. Set e' k v) [(''b'', ''2''), (''B'', ''3''), (''a'', ''1'')] empty_env) =
     [''B'', ''a'', ''b''] \<and>
   EnvfileString (fold (\<lambda>(k, v) e'. Set e' k v) [(''a'', ''1''), (''b'', ''2''), (''B'', ''3'')] empty_env) =
     EnvfileString (fold (\<lambda>(k, v) e'. Set e' k v) [(''b'', ''2''), (''B'', ''3''), (''a'', ''1'')] empty_env) \<and>
   EnvfileString (fold (\<lambda>(k, v) e'. Set e' k v) [(''b'', ''2''), (''B'', ''3''), (''a'', ''1'')] empty_env) =
     ''B='' @ [quote] @ ''3'' @ [quote, newline] @ ''a='' @ [quote] @ ''1'' @ [quote, newline] @
     ''b='' @ [quote] @ ''2'' @ [quote]"
proof -
  let ?e = "fold (\<lambda>(k, v) e'. Set e' k v) [(''b'', ''2''), (''B'', ''3''), (''a'', ''1'')] empty_env"
  have dom: "distinct [''b'', ''B'', ''a''] \<and> set [''b'', ''B'', ''a''] = fmdom' (env ?e)"
    by (simp add: empty_env_def Set_def insert_commute)
  have d: "distinct (map fst [(''b'', ''2''), (''B'', ''3''), (''a'', ''1'')]) \<and>
           distinct (map fst [(''a'', ''1''), (''b'', ''2''), (''B'', ''3'')]) \<and>
           set [(''a'', ''1''), (''b'', ''2''), (''B'', ''3'')] =
             set [(''b'', ''2''), (''B'', ''3''), (''a'', ''1'')]"
    by auto
  note T = Keys_sorted_deterministic
    [where e = empty_env and kvs = "[(''b'', ''2''), (''B'', ''3''), (''a'', ''1'')]"
       and kvs' = "[(''a'', ''1''), (''b'', ''2''), (''B'', ''3'')]"]
  note T' = Keys_sorted_deterministic [where e = ?e]
  have k: "Keys ?e = [''B'', ''a'', ''b'']"
    by code_simp
  have s: "EnvfileString ?e =
     ''B='' @ [quote] @ ''3'' @ [quote, newline] @ ''a='' @ [quote] @ ''1'' @ [quote, newline] @
     ''b='' @ [quote] @ ''2'' @ [quote]"
    by code_simp
  from T' dom have "sort [''b'', ''B'', ''a''] = Keys ?e"
    by blast
  moreover from T d have "EnvfileString (fold (\<lambda>(k, v) e'. Set e' k v) [(''a'', ''1''), (''b'', ''2''), (''B'', ''3'')] empty_env) =
     EnvfileString ?e"
    by blast
  ultimately show ?thesis
    using k s by simp
qed

subsection \<open>Merging\<close>

lemma fields_Set:
  "name (Set e k v) = name e" "filename (Set e k v) = filename e"
  "EscapeNewlines (Set e k v) = EscapeNewlines e"
  by (simp_all add: Set_def)

lemma fold_Set_lookup:
  "fmlookup (env (fold (\<lambda>k e'. Set e' k (f k)) ks e)) k =
     (if k \<in> set ks then Some (f k) else fmlookup (env e) k)"
  by (induction ks arbitrary: e) (auto simp: env_Set)

lemma fold_Set_fields:
  "name (fold (\<lambda>k e'. Set e' k (f k)) ks e) = name e \<and>
   filename (fold (\<lambda>k e'. Set e' k (f k)) ks e) = filename e \<and>
   EscapeNewlines (fold (\<lambda>k e'. Set e' k (f k)) ks e) = EscapeNewlines e"
  by (induction ks arbitrary: e) (simp_all add: fields_Set)

text \<open>
  C6. After \<open>Merge\<close> the receiver holds, at every key of \<open>other\<close>, the value of
  \<open>other\<close>, and at every other key what it held before; its name, path and flag are
  unchanged. The receiver \<open>{A:1, B:2}\<close> merged with \<open>{B:9, C:3}\<close> becomes
  \<open>{A:1, B:9, C:3}\<close>.
\<close>

theorem Merge_spec:
  "fmlookup (env (Merge e other)) k =
     (case fmlookup (env other) k of Some v \<Rightarrow> Some v | None \<Rightarrow> fmlookup (env e) k) \<and>
   name (Merge e other) = name e \<and> filename (Merge e other) = filename e \<and>
   EscapeNewlines (Merge e other) = EscapeNewlines e"
proof -
  have "fmlookup (env (Merge e other)) k =
      (if k \<in> fmdom' (env other) then Some (GetDefault other k []) else fmlookup (env e) k)"
    by (simp add: Merge_def fold_Set_lookup set_Keys)
  also have "\<dots> = (case fmlookup (env other) k of Some v \<Rightarrow> Some v | None \<Rightarrow> fmlookup (env e) k)"
    by (auto simp: GetDefault_def fmlookup_dom'_iff split: option.splits)
  finally show ?thesis
    by (simp add: Merge_def fold_Set_fields)
qed

theorem Merge_spec_witness:
  "map (fmlookup (env (Merge merge_receiver merge_other))) [''A'', ''B'', ''C'', ''D''] =
     [Some ''1'', Some ''9'', Some ''3'', None] \<and>
   Keys (Merge merge_receiver merge_other) = [''A'', ''B'', ''C'']"
proof -
  have k: "Keys (Merge merge_receiver merge_other) = [''A'', ''B'', ''C'']"
    by code_simp
  show ?thesis
    using Merge_spec [of merge_receiver merge_other] k
    by (simp add: merge_receiver_def merge_other_def)
qed

text \<open>
  C2. \<open>SingleQuoteEscape\<close> maps every quote to the four bytes quote, backslash, quote,
  quote and every other byte to itself, in place; \<^verbatim>\<open>it's\<close> becomes \<^verbatim>\<open>it'\''s\<close>. It is
  not idempotent: a second application changes the escaped string exactly when the value
  has a quote, and then makes it nine bytes longer for each quote of the value.
\<close>

theorem SingleQuoteEscape_spec:
  "SingleQuoteEscape v =
     concat (map (\<lambda>c. if c = quote then [quote, backslash, quote, quote] else [c]) v) \<and>
   SingleQuoteEscape (''it'' @ [quote] @ ''s'') = ''it'' @ [quote, backslash, quote, quote] @ ''s'' \<and>
   (SingleQuoteEscape (SingleQuoteEscape v) = SingleQuoteEscape v \<longleftrightarrow> quote \<notin> set v) \<and>
   length (SingleQuoteEscape (SingleQuoteEscape v)) =
     length (SingleQuoteEscape v) + 9 * count_list v quote"
proof -
  have ex: "SingleQuoteEscape (''it'' @ [quote] @ ''s'') =
      ''it'' @ [quote, backslash, quote, quote] @ ''s''"
    by (simp add: SingleQuoteEscape_def)
  have len: "length (SingleQuoteEscape (SingleQuoteEscape v)) =
      length (SingleQuoteEscape v) + 9 * count_list v quote"
    by (simp add: length_SingleQuoteEscape count_SingleQuoteEscape)
  have idem: "SingleQuoteEscape (SingleQuoteEscape v) = SingleQuoteEscape v \<longleftrightarrow> quote \<notin> set v"
  proof
    assume "SingleQuoteEscape (SingleQuoteEscape v) = SingleQuoteEscape v"
    then have "length (SingleQuoteEscape (SingleQuoteEscape v)) = length (SingleQuoteEscape v)"
      by simp
    with len have "count_list v quote = 0" by simp
    then show "quote \<notin> set v" by (simp add: count_list_0_iff)
  next
    assume "quote \<notin> set v"
    then have "SingleQuoteEscape v = v"
      by (induction v) (auto simp: SingleQuoteEscape_Nil SingleQuoteEscape_Cons)
    then show "SingleQuoteEscape (SingleQuoteEscape v) = SingleQuoteEscape v" by simp
  qed
  from ex len idem show ?thesis
    by (simp only: SingleQuoteEscape_concat [of v, symmetric] simp_thms)
qed

theorem SingleQuoteEscape_spec_witness:
  "SingleQuoteEscape (SingleQuoteEscape (''it'' @ [quote] @ ''s'')) =
     ''it'' @ [quote, backslash, quote, quote, backslash, quote, backslash, quote, quote,
               quote, backslash, quote, quote] @ ''s'' \<and>
   SingleQuoteEscape (SingleQuoteEscape (''it'' @ [quote] @ ''s'')) \<noteq>
     SingleQuoteEscape (''it'' @ [quote] @ ''s'') \<and>
   SingleQuoteEscape (SingleQuoteEscape ''its'') = SingleQuoteEscape ''its''"
proof -
  have "SingleQuoteEscape (SingleQuoteEscape (''it'' @ [quote] @ ''s'')) =
     ''it'' @ [quote, backslash, quote, quote, backslash, quote, backslash, quote, quote,
               quote, backslash, quote, quote] @ ''s''"
    by (simp add: SingleQuoteEscape_def)
  then show ?thesis
    using SingleQuoteEscape_spec [of "''it'' @ [quote] @ ''s''"] SingleQuoteEscape_spec [of "''its''"]
    by simp
qed

subsection \<open>Newlines\<close>

lemma count_list_concat_map:
  "count_list (concat (map f xs)) a = sum_list (map (\<lambda>x. count_list (f x) a) xs)"
  by (induction xs) simp_all

lemma count_newline_SingleQuoteEscape:
  "count_list (SingleQuoteEscape v) newline = count_list v newline"
  by (induction v) (simp_all add: SingleQuoteEscape_Nil SingleQuoteEscape_Cons)

lemma newline_notin_Replace:
  "newline \<notin> set (Replace v [newline] newline_idiom)"
  by (auto simp: Replace_byte split: if_splits)

lemma count_list_Join:
  "count_list (Join xs [c]) c = sum_list (map (\<lambda>x. count_list x c) xs) + (length xs - 1)"
  by (induction xs "[c]" rule: Join.induct) simp_all

lemma entry_value_escaped:
  "EscapeNewlines e \<Longrightarrow>
   entry_value e k = Replace (SingleQuoteEscape (index (env e) k)) [newline] newline_idiom"
  by (simp add: entry_value_def)

lemma entry_value_verbatim:
  "\<not> EscapeNewlines e \<Longrightarrow> entry_value e k = SingleQuoteEscape (index (env e) k)"
  by (simp add: entry_value_def)

lemma count_entry:
  "count_list (entry e pre k) newline =
     count_list pre newline + count_list k newline + count_list (entry_value e k) newline"
  by (simp add: entry_def)

lemma sum_list_zero: "(\<And>x. x \<in> set xs \<Longrightarrow> f x = (0::nat)) \<Longrightarrow> sum_list (map f xs) = 0"
  by (induction xs) simp_all

text \<open>
  C3, for keys without a newline. Under the flag every newline of the quote-escaped value becomes the
  seven-byte idiom, so the serialized value has no newline; an entry whose prefix and key
  have no newline is then one physical line, and when no key has a newline the output
  has as many lines as entries. Without the flag the value is only quote-escaped: its
  newlines stay, and an entry whose value has a newline spans several lines. Keys are
  written as they are, so a newline in a key breaks the line under either setting.
\<close>

theorem EscapeNewlines_spec:
  "(EscapeNewlines e \<longrightarrow>
      entry_value e k =
        concat (map (\<lambda>c. if c = newline then newline_idiom else [c])
          (SingleQuoteEscape (index (env e) k))) \<and>
      newline \<notin> set (entry_value e k) \<and>
      (newline \<notin> set pre \<and> newline \<notin> set k \<longrightarrow> newline \<notin> set (entry e pre k)) \<and>
      (newline \<notin> set pre \<and> (\<forall>k' \<in> fmdom' (env e). newline \<notin> set k') \<and> Keys e \<noteq> [] \<longrightarrow>
         Suc (count_list (StringWithPrefixAndSeparator e pre [newline]) newline) =
           length (Keys e))) \<and>
   (\<not> EscapeNewlines e \<longrightarrow>
      entry_value e k = SingleQuoteEscape (index (env e) k) \<and>
      count_list (entry_value e k) newline = count_list (index (env e) k) newline \<and>
      (newline \<in> set (index (env e) k) \<longrightarrow> newline \<in> set (entry e pre k)))"
proof (intro conjI impI)
  assume f: "EscapeNewlines e"
  show "entry_value e k =
        concat (map (\<lambda>c. if c = newline then newline_idiom else [c])
          (SingleQuoteEscape (index (env e) k)))"
    by (simp only: entry_value_escaped [OF f] Replace_byte)
  show v: "newline \<notin> set (entry_value e k)" for k
    by (simp only: entry_value_escaped [OF f] newline_notin_Replace not_False_eq_True)
  show "newline \<notin> set (entry e pre k)" if "newline \<notin> set pre \<and> newline \<notin> set k"
    using that v [of k] by (simp add: entry_def)
  show "Suc (count_list (StringWithPrefixAndSeparator e pre [newline]) newline) = length (Keys e)"
    if h: "newline \<notin> set pre \<and> (\<forall>k' \<in> fmdom' (env e). newline \<notin> set k') \<and> Keys e \<noteq> []"
  proof -
    have "count_list (entry e pre k') newline = 0" if "k' \<in> set (Keys e)" for k'
    proof -
      from that h have "newline \<notin> set k'"
        by (simp add: set_Keys)
      with h v [of k'] show ?thesis
        by (simp add: count_entry count_list_0_iff)
    qed
    then have "sum_list (map (\<lambda>x. count_list x newline) (map (entry e pre) (Keys e))) = 0"
      by (simp add: sum_list_zero comp_def)
    then have "count_list (StringWithPrefixAndSeparator e pre [newline]) newline =
        length (Keys e) - 1"
      by (simp only: StringWithPrefixAndSeparator_def count_list_Join length_map add_0)
    moreover from h have "0 < length (Keys e)"
      by simp
    ultimately show ?thesis
      by simp
  qed
next
  assume f: "\<not> EscapeNewlines e"
  show "entry_value e k = SingleQuoteEscape (index (env e) k)"
    by (rule entry_value_verbatim [OF f])
  show c: "count_list (entry_value e k) newline = count_list (index (env e) k) newline"
    by (simp only: entry_value_verbatim [OF f] count_newline_SingleQuoteEscape)
  show "newline \<in> set (entry e pre k)" if n: "newline \<in> set (index (env e) k)"
  proof -
    from n have "count_list (index (env e) k) newline \<noteq> 0"
      by (simp only: count_list_0_iff not_not)
    with c have "count_list (entry_value e k) newline \<noteq> 0"
      by simp
    then have "newline \<in> set (entry_value e k)"
      by (simp only: count_list_0_iff not_not)
    then show ?thesis
      by (simp add: entry_def)
  qed
qed

theorem EscapeNewlines_spec_witness:
  "EscapeNewlines (newline_env True) \<and>
   entry_value (newline_env True) ''A'' = [CHR ''a''] @ newline_idiom @ [CHR ''b''] \<and>
   newline \<notin> set (entry (newline_env True) ''export '' ''A'') \<and>
   Suc (count_list (StringWithPrefixAndSeparator (newline_env True) ''export '' [newline]) newline) = 2 \<and>
   \<not> EscapeNewlines (newline_env False) \<and>
   entry_value (newline_env False) ''A'' = [CHR ''a'', newline, CHR ''b''] \<and>
   newline \<in> set (entry (newline_env False) ''export '' ''A'')"
proof -
  have f1: "EscapeNewlines (newline_env True)"
    by (simp add: newline_env_def)
  have f2: "\<not> EscapeNewlines (newline_env False)"
    by (simp add: newline_env_def)
  have k: "Keys (newline_env True) = [''A'', ''B'']"
    by code_simp
  have d: "fmdom' (env (newline_env True)) = {''A'', ''B''}"
    using set_Keys [of "newline_env True"] by (simp only: k list.set)
  have h: "newline \<notin> set ''export '' \<and> (\<forall>k' \<in> fmdom' (env (newline_env True)). newline \<notin> set k') \<and>
           Keys (newline_env True) \<noteq> []"
    by (simp add: d k)
  have h': "newline \<notin> set ''export '' \<and> newline \<notin> set ''A''"
    by simp
  have i1: "index (env (newline_env True)) ''A'' = [CHR ''a'', newline, CHR ''b'']"
    by code_simp
  have i2: "index (env (newline_env False)) ''A'' = [CHR ''a'', newline, CHR ''b'']"
    by code_simp
  have n: "newline \<in> set (index (env (newline_env False)) ''A'')"
    by (simp add: i2)
  note T1 = EscapeNewlines_spec [of "newline_env True" "''A''" "''export ''"]
  note T2 = EscapeNewlines_spec [of "newline_env False" "''A''" "''export ''"]
  from T1 f1 h h' have a:
    "entry_value (newline_env True) ''A'' =
       concat (map (\<lambda>c. if c = newline then newline_idiom else [c])
         (SingleQuoteEscape (index (env (newline_env True)) ''A'')))"
    "newline \<notin> set (entry (newline_env True) ''export '' ''A'')"
    "Suc (count_list (StringWithPrefixAndSeparator (newline_env True) ''export '' [newline]) newline) =
       length (Keys (newline_env True))"
    by blast+
  from T2 f2 n have b:
    "entry_value (newline_env False) ''A'' = SingleQuoteEscape (index (env (newline_env False)) ''A'')"
    "newline \<in> set (entry (newline_env False) ''export '' ''A'')"
    by blast+
  have a1: "entry_value (newline_env True) ''A'' = [CHR ''a''] @ newline_idiom @ [CHR ''b'']"
    by (simp add: a(1) i1 SingleQuoteEscape_def)
  have b1: "entry_value (newline_env False) ''A'' = [CHR ''a'', newline, CHR ''b'']"
    by (simp add: b(1) i2 SingleQuoteEscape_def)
  have a3: "Suc (count_list (StringWithPrefixAndSeparator (newline_env True) ''export '' [newline]) newline) = 2"
    by (simp only: a(3) k) simp
  show ?thesis
    by (intro conjI) (rule f1, rule a1, rule a(2), rule a3, rule f2, rule b1, rule b(2))
qed

text \<open>
  A key is written as it is stored: with the flag set, the one entry of an Env whose key
  has a newline still takes two physical lines.
\<close>

theorem EscapeNewlines_key_counterexample:
  "EscapeNewlines newline_key_env \<and>
   Keys newline_key_env = [[CHR ''A'', newline, CHR ''B'']] \<and>
   EnvfileString newline_key_env =
     [CHR ''A'', newline, CHR ''B'', CHR ''='', quote, CHR ''x''] @ newline_idiom @ [CHR ''y'', quote] \<and>
   count_list (EnvfileString newline_key_env) newline = 1"
proof -
  have c1: "EscapeNewlines newline_key_env"
    by (simp add: newline_key_env_def)
  have c2: "Keys newline_key_env = [[CHR ''A'', newline, CHR ''B'']]"
    by code_simp
  have c3: "EnvfileString newline_key_env =
     [CHR ''A'', newline, CHR ''B'', CHR ''='', quote, CHR ''x''] @ newline_idiom @ [CHR ''y'', quote]"
    by code_simp
  have c4: "count_list (EnvfileString newline_key_env) newline = 1"
    by (simp only: c3) simp
  show ?thesis
    by (intro conjI) (rule c1, rule c2, rule c3, rule c4)
qed

subsection \<open>Archive export\<close>

lemma fst_Get: "fst (Get e k) = index (env e) k"
  by (simp add: Get_def index_def split: option.split)

lemma remaining_snoc:
  "remaining (tw\<lparr>archive := xs @ [(h, c)]\<rparr>) =
     (if header_only h then 0 else Size h - int (length c))"
  by (simp add: remaining_def)

lemma WriteHeader_ok:
  assumes "err tw = None" "room tw = None" "remaining tw \<le> 0" "\<not> refused hdr"
  shows "WriteHeader tw hdr = (None, tw\<lparr>archive := archive tw @ [(hdr, [])]\<rparr>)"
  using assms by (simp add: WriteHeader_def dest_full_def dest_used_def)

lemma Write_tar_ok:
  assumes "err tw = None" "room tw = None" "archive tw = xs @ [(hdr, [])]"
    "Size hdr = int (length b)" "\<not> header_only hdr"
  shows "snd (Write_tar tw b) = tw\<lparr>archive := xs @ [(hdr, b)]\<rparr>"
proof (cases "b = []")
  case True
  with assms show ?thesis
    by (simp add: Write_tar_def remaining_def)
next
  case False
  with assms show ?thesis
    by (simp add: Write_tar_def remaining_def dest_full_def dest_used_def Let_def)
qed

lemma export_entry_ok:
  assumes "err tw = None" "room tw = None" "remaining tw \<le> 0"
    and k: "CHR 0x00 \<notin> set k" "\<not> suffix ''/'' k"
  shows "export_entry e k tw = tw\<lparr>archive := archive tw @ [bundle_entry e k]\<rparr>"
proof -
  let ?v = "index (env e) k"
  let ?h = "\<lparr>Name = k, Mode = 384, Size = int (length ?v)\<rparr>"
  let ?mid = "tw\<lparr>archive := archive tw @ [(?h, [])]\<rparr>"
  have nr: "\<not> refused ?h"
    using k(1) by (simp add: refused_def)
  have nh: "\<not> header_only ?h"
    using k(2) by (simp add: header_only_def)
  have h: "WriteHeader tw ?h = (None, ?mid)"
    by (rule WriteHeader_ok [OF assms(1-3) nr])
  have "snd (Write_tar ?mid ?v) = ?mid\<lparr>archive := archive tw @ [(?h, ?v)]\<rparr>"
    by (rule Write_tar_ok [OF _ _ _ _ nh]) (simp_all add: assms(1-3))
  then have w: "snd (Write_tar ?mid ?v) = tw\<lparr>archive := archive tw @ [(?h, ?v)]\<rparr>"
    by simp
  show ?thesis
    by (simp add: export_entry_def split_def Let_def fst_Get h w bundle_entry_def)
qed

lemma remaining_bundle_entry:
  "remaining (tw\<lparr>archive := xs @ [bundle_entry e k]\<rparr>) \<le> 0"
  by (simp add: bundle_entry_def remaining_snoc)

lemma fold_export_entry_ok:
  assumes "err tw = None" "room tw = None" "remaining tw \<le> 0"
    and "\<And>k. k \<in> set ks \<Longrightarrow> CHR 0x00 \<notin> set k \<and> \<not> suffix ''/'' k"
  shows "fold (export_entry e) ks tw = tw\<lparr>archive := archive tw @ map (bundle_entry e) ks\<rparr>"
  using assms
proof (induction ks arbitrary: tw)
  case Nil
  then show ?case by simp
next
  case (Cons k ks)
  let ?tw = "tw\<lparr>archive := archive tw @ [bundle_entry e k]\<rparr>"
  from Cons.prems(4) [of k] have k: "CHR 0x00 \<notin> set k" "\<not> suffix ''/'' k"
    by simp_all
  have step: "export_entry e k tw = ?tw"
    by (rule export_entry_ok [OF Cons.prems(1-3) k])
  have r: "remaining ?tw \<le> 0"
    by (rule remaining_bundle_entry)
  have "fold (export_entry e) ks ?tw = ?tw\<lparr>archive := archive ?tw @ map (bundle_entry e) ks\<rparr>"
    by (rule Cons.IH) (simp_all add: Cons.prems r)
  then show ?case
    by (simp add: step)
qed

lemma remaining_map_bundle: "remaining (tw\<lparr>archive := map (bundle_entry e) ks\<rparr>) \<le> 0"
  by (cases ks rule: rev_cases) (simp_all add: remaining_def bundle_entry_def)

text \<open>
  C8, for keys the archive format takes as file names. When no key has a NUL byte or
  ends in a slash, then on a destination that accepts every write \<open>ExportBundle\<close> writes
  exactly one entry per stored variable, in the order of \<open>Keys\<close>: the name is the key,
  the mode is octal 0600, the size is the byte length of the raw value and the content is
  the raw value, unquoted. \<open>{A:x, B:y}\<close> gives the entries \<open>A\<close> then \<open>B\<close>, each of
  size 1.
\<close>

theorem ExportBundle_entries:
  assumes "\<forall>k \<in> fmdom' (env e). CHR 0x00 \<notin> set k \<and> \<not> suffix ''/'' k"
  shows "fst (ExportBundle e None) = None \<and>
   archive (snd (ExportBundle e None)) =
     map (\<lambda>k. (\<lparr>Name = k, Mode = 384, Size = int (length (index (env e) k))\<rparr>,
                index (env e) k)) (Keys e) \<and>
   err (snd (ExportBundle e None)) = None \<and>
   closed (snd (ExportBundle e None))"
proof -
  let ?init = "NewWriter None"
  let ?tw = "?init\<lparr>archive := map (bundle_entry e) (Keys e)\<rparr>"
  have ok: "CHR 0x00 \<notin> set k \<and> \<not> suffix ''/'' k" if "k \<in> set (Keys e)" for k
    using that assms by (simp add: set_Keys)
  have "fold (export_entry e) (Keys e) ?init =
      ?init\<lparr>archive := archive ?init @ map (bundle_entry e) (Keys e)\<rparr>"
    by (rule fold_export_entry_ok [where tw = "NewWriter None"])
      (simp_all add: NewWriter_def remaining_def ok)
  then have f: "fold (export_entry e) (Keys e) ?init = ?tw"
    by (simp add: NewWriter_def)
  have r: "\<not> 0 < remaining ?tw"
    by (simp only: not_less) (rule remaining_map_bundle)
  have c: "snd (Close_tar ?tw) = ?tw\<lparr>closed := True\<rparr>"
    using r by (simp add: Close_tar_def NewWriter_def dest_full_def dest_used_def)
  have b: "bundle_entry e =
      (\<lambda>k. (\<lparr>Name = k, Mode = 384, Size = int (length (index (env e) k))\<rparr>, index (env e) k))"
    by (rule ext) (simp add: bundle_entry_def)
  have x: "snd (ExportBundle e None) = ?tw\<lparr>closed := True\<rparr>"
    by (simp add: ExportBundle_def Let_def f c)
  have c1: "fst (ExportBundle e None) = None"
    by (simp add: ExportBundle_def Let_def)
  have c2: "archive (snd (ExportBundle e None)) =
     map (\<lambda>k. (\<lparr>Name = k, Mode = 384, Size = int (length (index (env e) k))\<rparr>,
                index (env e) k)) (Keys e)"
    by (simp add: x b)
  have c3: "err (snd (ExportBundle e None)) = None"
    by (simp add: x NewWriter_def)
  have c4: "closed (snd (ExportBundle e None))"
    by (simp add: x)
  show ?thesis
    by (intro conjI) (rule c1, rule c2, rule c3, rule c4)
qed

theorem ExportBundle_entries_witness:
  "archive (snd (ExportBundle bundle_env None)) =
     [(\<lparr>Name = ''A'', Mode = 384, Size = 1\<rparr>, ''x''),
      (\<lparr>Name = ''B'', Mode = 384, Size = 1\<rparr>, ''y'')]"
proof -
  have k: "Keys bundle_env = [''A'', ''B'']"
    by code_simp
  have i: "index (env bundle_env) ''A'' = ''x''" "index (env bundle_env) ''B'' = ''y''"
    by code_simp+
  have d: "fmdom' (env bundle_env) = {''A'', ''B''}"
    using set_Keys [of bundle_env] by (simp only: k list.set)
  have h: "\<forall>k \<in> fmdom' (env bundle_env). CHR 0x00 \<notin> set k \<and> \<not> suffix ''/'' k"
    by (simp add: d suffix_def)
  from ExportBundle_entries [OF h] have
    "archive (snd (ExportBundle bundle_env None)) =
     map (\<lambda>k. (\<lparr>Name = k, Mode = 384, Size = int (length (index (env bundle_env) k))\<rparr>,
                index (env bundle_env) k)) (Keys bundle_env)"
    by (rule conjunct1 [OF conjunct2])
  then show ?thesis
    by (simp add: k i)
qed

text \<open>
  Two keys that \<open>Set\<close> accepts and the archive writer does not take as file names. The
  key \<open>A/\<close> becomes a directory entry: its header is written with size 1 and the value
  \<open>x\<close> is not. The header for a key with a NUL byte is refused, and of the two
  variables only \<open>B\<close> is archived.
\<close>

theorem ExportBundle_key_counterexample:
  "Keys slash_key_env = [''A/''] \<and>
   index (env slash_key_env) ''A/'' = ''x'' \<and>
   archive (snd (ExportBundle slash_key_env None)) =
     [(\<lparr>Name = ''A/'', Mode = 384, Size = 1\<rparr>, [])] \<and>
   Keys nul_key_env = [[CHR ''A'', CHR 0x00], ''B''] \<and>
   archive (snd (ExportBundle nul_key_env None)) =
     [(\<lparr>Name = ''B'', Mode = 384, Size = 1\<rparr>, ''y'')]"
proof -
  have c1: "Keys slash_key_env = [''A/'']"
    by code_simp
  have c2: "index (env slash_key_env) ''A/'' = ''x''"
    by code_simp
  have c3: "archive (snd (ExportBundle slash_key_env None)) =
     [(\<lparr>Name = ''A/'', Mode = 384, Size = 1\<rparr>, [])]"
    by code_simp
  have c4: "Keys nul_key_env = [[CHR ''A'', CHR 0x00], ''B'']"
    by code_simp
  have c5: "archive (snd (ExportBundle nul_key_env None)) =
     [(\<lparr>Name = ''B'', Mode = 384, Size = 1\<rparr>, ''y'')]"
    by code_simp
  show ?thesis
    by (intro conjI) (rule c1, rule c2, rule c3, rule c4, rule c5)
qed

text \<open>
  C9. \<open>ExportBundle\<close> returns no error whatever the destination does: on a
  destination that refuses its first write, \<open>WriteHeader\<close> reports the failure, the
  archive stays empty, and \<open>ExportBundle\<close> still returns \<^verbatim>\<open>nil\<close>.
\<close>

theorem ExportBundle_swallows_errors:
  "fst (ExportBundle e dest) = None \<and>
   fst (WriteHeader (NewWriter (Some 0)) \<lparr>Name = ''A'', Mode = 384, Size = 1\<rparr>) = Some ErrDest \<and>
   fst (ExportBundle bundle_env (Some 0)) = None \<and>
   archive (snd (ExportBundle bundle_env (Some 0))) = [] \<and>
   err (snd (ExportBundle bundle_env (Some 0))) = Some ErrDest"
proof -
  have c1: "fst (ExportBundle e dest) = None" for e dest
    by (simp add: ExportBundle_def Let_def)
  have c2: "fst (WriteHeader (NewWriter (Some 0)) \<lparr>Name = ''A'', Mode = 384, Size = 1\<rparr>) =
      Some ErrDest"
    by (simp add: WriteHeader_def NewWriter_def remaining_def dest_full_def)
  have c4: "archive (snd (ExportBundle bundle_env (Some 0))) = []"
    by code_simp
  have c5: "err (snd (ExportBundle bundle_env (Some 0))) = Some ErrDest"
    by code_simp
  show ?thesis
    by (intro conjI) (rule c1, rule c2, rule c1, rule c4, rule c5)
qed

subsection \<open>Persistence\<close>

lemma Write_unbound:
  "filename e = [] \<Longrightarrow>
   Write e fs = (Some (Errors_New ''this Env was created unbound to a file''), fs)"
  by (simp add: Write_def)

lemma Write_create_fails:
  assumes "filename e \<noteq> []" "create_fails fs (filename e)"
  shows "Write e fs =
    (Some (PathError ''open'' (filename e)), fs\<lparr>ops := ops fs @ [OpCreate (filename e)]\<rparr>)"
  using assms by (simp add: Write_def os_Create_def Let_def)

lemma os_Create_ok:
  "\<not> create_fails fs p \<Longrightarrow>
   os_Create fs p = (Inr p, fs\<lparr>ops := ops fs @ [OpCreate p], files := (files fs)(p \<mapsto> [])\<rparr>)"
  by (simp add: os_Create_def Let_def)

lemma WriteString_all:
  assumes "files fs p = Some []" "write_fault fs p = None"
  shows "file_WriteString fs p s =
    ((length s, None), fs\<lparr>ops := ops fs @ [OpWrite p s], files := (files fs)(p \<mapsto> s)\<rparr>)"
  using assms by (simp add: file_WriteString_def Let_def)

lemma WriteString_fault:
  assumes "files fs p = Some []" "write_fault fs p = Some n"
  shows "file_WriteString fs p s =
    ((min n (length s), Some (PathError ''write'' p)),
     fs\<lparr>ops := ops fs @ [OpWrite p s], files := (files fs)(p \<mapsto> take n s)\<rparr>)"
  using assms by (simp add: file_WriteString_def Let_def)

lemma Write_created:
  assumes "filename e \<noteq> []" "\<not> create_fails fs (filename e)"
  shows "Write e fs =
    (snd (fst (file_WriteString (snd (os_Create fs (filename e))) (filename e)
        (ExportfileString e))),
     snd (file_Close (snd (file_WriteString (snd (os_Create fs (filename e))) (filename e)
        (ExportfileString e))) (filename e)))"
  using assms by (simp add: Write_def os_Create_ok split_def Let_def)

lemma Write_ok:
  assumes "filename e \<noteq> []" "\<not> create_fails fs (filename e)"
    "write_fault fs (filename e) = None"
  shows "Write e fs =
    (None, fs\<lparr>ops := ops fs @ [OpCreate (filename e), OpWrite (filename e) (ExportfileString e),
                                OpClose (filename e)],
              files := (files fs)(filename e \<mapsto> ExportfileString e)\<rparr>)"
proof -
  let ?p = "filename e"
  let ?mid = "fs\<lparr>ops := ops fs @ [OpCreate ?p], files := (files fs)(?p \<mapsto> [])\<rparr>"
  have c: "os_Create fs ?p = (Inr ?p, ?mid)"
    by (rule os_Create_ok [OF assms(2)])
  have w: "file_WriteString ?mid ?p (ExportfileString e) =
    ((length (ExportfileString e), None),
     ?mid\<lparr>ops := ops ?mid @ [OpWrite ?p (ExportfileString e)],
           files := (files ?mid)(?p \<mapsto> ExportfileString e)\<rparr>)"
    by (rule WriteString_all) (use assms(3) in simp_all)
  show ?thesis
    by (simp add: Write_created [OF assms(1,2)] c w file_Close_def)
qed

lemma Write_fault:
  assumes "filename e \<noteq> []" "\<not> create_fails fs (filename e)"
    "write_fault fs (filename e) = Some n"
  shows "Write e fs =
    (Some (PathError ''write'' (filename e)),
     fs\<lparr>ops := ops fs @ [OpCreate (filename e), OpWrite (filename e) (ExportfileString e),
                          OpClose (filename e)],
        files := (files fs)(filename e \<mapsto> take n (ExportfileString e))\<rparr>)"
proof -
  let ?p = "filename e"
  let ?mid = "fs\<lparr>ops := ops fs @ [OpCreate ?p], files := (files fs)(?p \<mapsto> [])\<rparr>"
  have c: "os_Create fs ?p = (Inr ?p, ?mid)"
    by (rule os_Create_ok [OF assms(2)])
  have w: "file_WriteString ?mid ?p (ExportfileString e) =
    ((min n (length (ExportfileString e)), Some (PathError ''write'' ?p)),
     ?mid\<lparr>ops := ops ?mid @ [OpWrite ?p (ExportfileString e)],
           files := (files ?mid)(?p \<mapsto> take n (ExportfileString e))\<rparr>)"
    by (rule WriteString_fault) (use assms(3) in simp_all)
  show ?thesis
    by (simp add: Write_created [OF assms(1,2)] c w file_Close_def)
qed

lemma close_fails_kept:
  "close_fails (snd (file_WriteString (snd (os_Create fs p)) p s)) = close_fails fs"
  by (simp add: file_WriteString_def os_Create_def Let_def split: option.split)

text \<open>
  C7. With an empty backing path \<open>Write\<close> returns the not-bound error and leaves the
  file system as it was, its log of operations included. With a path it creates or
  truncates the file and writes the export serialization; it returns the error of the
  creation, or else the error of the write. The error of the close is not returned: when
  creation and write succeed and the close fails, \<open>Write\<close> returns \<^verbatim>\<open>nil\<close>.
\<close>

theorem Write_close_error_dropped:
  "(filename e = [] \<longrightarrow>
      Write e fs = (Some (Errors_New ''this Env was created unbound to a file''), fs)) \<and>
   (filename e \<noteq> [] \<and> create_fails fs (filename e) \<longrightarrow>
      fst (Write e fs) = Some (PathError ''open'' (filename e)) \<and>
      files (snd (Write e fs)) = files fs) \<and>
   (filename e \<noteq> [] \<and> \<not> create_fails fs (filename e) \<and>
    write_fault fs (filename e) = Some n \<longrightarrow>
      fst (Write e fs) = Some (PathError ''write'' (filename e)) \<and>
      files (snd (Write e fs)) = (files fs)(filename e \<mapsto> take n (ExportfileString e))) \<and>
   (filename e \<noteq> [] \<and> \<not> create_fails fs (filename e) \<and>
    write_fault fs (filename e) = None \<longrightarrow>
      fst (Write e fs) = None \<and>
      files (snd (Write e fs)) = (files fs)(filename e \<mapsto> ExportfileString e) \<and>
      ops (snd (Write e fs)) =
        ops fs @ [OpCreate (filename e), OpWrite (filename e) (ExportfileString e),
                  OpClose (filename e)]) \<and>
   (filename e \<noteq> [] \<and> \<not> create_fails fs (filename e) \<and>
    write_fault fs (filename e) = None \<and> close_fails fs (filename e) \<longrightarrow>
      fst (file_Close
            (snd (file_WriteString (snd (os_Create fs (filename e))) (filename e)
               (ExportfileString e)))
            (filename e)) = Some (PathError ''close'' (filename e)) \<and>
      fst (Write e fs) = None)"
proof (intro conjI impI)
  assume "filename e = []"
  then show "Write e fs = (Some (Errors_New ''this Env was created unbound to a file''), fs)"
    by (rule Write_unbound)
next
  assume h: "filename e \<noteq> [] \<and> create_fails fs (filename e)"
  then have w: "Write e fs =
    (Some (PathError ''open'' (filename e)), fs\<lparr>ops := ops fs @ [OpCreate (filename e)]\<rparr>)"
    by (intro Write_create_fails) simp_all
  show "fst (Write e fs) = Some (PathError ''open'' (filename e))"
    by (simp add: w)
  show "files (snd (Write e fs)) = files fs"
    by (simp add: w)
next
  assume h: "filename e \<noteq> [] \<and> \<not> create_fails fs (filename e) \<and>
    write_fault fs (filename e) = Some n"
  then have w: "Write e fs =
    (Some (PathError ''write'' (filename e)),
     fs\<lparr>ops := ops fs @ [OpCreate (filename e), OpWrite (filename e) (ExportfileString e),
                          OpClose (filename e)],
        files := (files fs)(filename e \<mapsto> take n (ExportfileString e))\<rparr>)"
    by (intro Write_fault) simp_all
  show "fst (Write e fs) = Some (PathError ''write'' (filename e))"
    by (simp add: w)
  show "files (snd (Write e fs)) = (files fs)(filename e \<mapsto> take n (ExportfileString e))"
    by (simp add: w)
next
  assume h: "filename e \<noteq> [] \<and> \<not> create_fails fs (filename e) \<and>
    write_fault fs (filename e) = None"
  then have w: "Write e fs =
    (None, fs\<lparr>ops := ops fs @ [OpCreate (filename e), OpWrite (filename e) (ExportfileString e),
                                OpClose (filename e)],
              files := (files fs)(filename e \<mapsto> ExportfileString e)\<rparr>)"
    by (intro Write_ok) simp_all
  show "fst (Write e fs) = None"
    by (simp add: w)
  show "files (snd (Write e fs)) = (files fs)(filename e \<mapsto> ExportfileString e)"
    by (simp add: w)
  show "ops (snd (Write e fs)) =
        ops fs @ [OpCreate (filename e), OpWrite (filename e) (ExportfileString e),
                  OpClose (filename e)]"
    by (simp add: w)
next
  assume h: "filename e \<noteq> [] \<and> \<not> create_fails fs (filename e) \<and>
    write_fault fs (filename e) = None \<and> close_fails fs (filename e)"
  then have w: "Write e fs =
    (None, fs\<lparr>ops := ops fs @ [OpCreate (filename e), OpWrite (filename e) (ExportfileString e),
                                OpClose (filename e)],
              files := (files fs)(filename e \<mapsto> ExportfileString e)\<rparr>)"
    by (intro Write_ok) simp_all
  from h show "fst (file_Close
            (snd (file_WriteString (snd (os_Create fs (filename e))) (filename e)
               (ExportfileString e)))
            (filename e)) = Some (PathError ''close'' (filename e))"
    by (simp add: file_Close_def close_fails_kept)
  show "fst (Write e fs) = None"
    by (simp add: w)
qed

theorem Write_close_error_dropped_witness:
  "Write empty_env (disk False None False) =
     (Some (Errors_New ''this Env was created unbound to a file''), disk False None False) \<and>
   fst (Write bound_env (disk True None False)) = Some (PathError ''open'' ''/home/dokku/app/ENV'') \<and>
   files (snd (Write bound_env (disk True None False))) ''/home/dokku/app/ENV'' =
     Some ''export OLD=value'' \<and>
   fst (Write bound_env (disk False (Some 3) False)) =
     Some (PathError ''write'' ''/home/dokku/app/ENV'') \<and>
   files (snd (Write bound_env (disk False (Some 3) False))) ''/home/dokku/app/ENV'' = Some ''exp'' \<and>
   fst (Write bound_env (disk False None False)) = None \<and>
   files (snd (Write bound_env (disk False None False))) ''/home/dokku/app/ENV'' =
     Some (''export A='' @ [quote] @ ''1'' @ [quote]) \<and>
   close_fails (disk False None True) ''/home/dokku/app/ENV'' \<and>
   fst (file_Close
         (snd (file_WriteString (snd (os_Create (disk False None True) ''/home/dokku/app/ENV''))
            ''/home/dokku/app/ENV'' (ExportfileString bound_env)))
         ''/home/dokku/app/ENV'') = Some (PathError ''close'' ''/home/dokku/app/ENV'') \<and>
   fst (Write bound_env (disk False None True)) = None"
proof -
  have s: "ExportfileString bound_env = ''export A='' @ [quote] @ ''1'' @ [quote]"
    by code_simp
  have u: "filename empty_env = []"
    by (simp add: empty_env_def)
  have b: "filename bound_env = ''/home/dokku/app/ENV''"
    by (simp add: bound_env_def)
  have h2: "filename bound_env \<noteq> [] \<and> create_fails (disk True None False) (filename bound_env)"
    by (simp add: b disk_def)
  have h3: "filename bound_env \<noteq> [] \<and>
    \<not> create_fails (disk False (Some 3) False) (filename bound_env) \<and>
    write_fault (disk False (Some 3) False) (filename bound_env) = Some 3"
    by (simp add: b disk_def)
  have h4: "filename bound_env \<noteq> [] \<and> \<not> create_fails (disk False None False) (filename bound_env) \<and>
    write_fault (disk False None False) (filename bound_env) = None"
    by (simp add: b disk_def)
  have h5: "filename bound_env \<noteq> [] \<and> \<not> create_fails (disk False None True) (filename bound_env) \<and>
    write_fault (disk False None True) (filename bound_env) = None \<and>
    close_fails (disk False None True) (filename bound_env)"
    by (simp add: b disk_def)
  note T1 = Write_close_error_dropped [of empty_env "disk False None False"]
  note T2 = Write_close_error_dropped [of bound_env "disk True None False"]
  note T3 = Write_close_error_dropped [of bound_env "disk False (Some 3) False" 3]
  note T4 = Write_close_error_dropped [of bound_env "disk False None False"]
  note T5 = Write_close_error_dropped [of bound_env "disk False None True"]
  from T1 u have c1: "Write empty_env (disk False None False) =
     (Some (Errors_New ''this Env was created unbound to a file''), disk False None False)"
    by blast
  from T2 h2 have c2: "fst (Write bound_env (disk True None False)) =
      Some (PathError ''open'' (filename bound_env))"
    "files (snd (Write bound_env (disk True None False))) = files (disk True None False)"
    by blast+
  from T3 h3 have c3: "fst (Write bound_env (disk False (Some 3) False)) =
      Some (PathError ''write'' (filename bound_env))"
    "files (snd (Write bound_env (disk False (Some 3) False))) =
       (files (disk False (Some 3) False))(filename bound_env \<mapsto> take 3 (ExportfileString bound_env))"
    by blast+
  from T4 h4 have c4: "fst (Write bound_env (disk False None False)) = None"
    "files (snd (Write bound_env (disk False None False))) =
       (files (disk False None False))(filename bound_env \<mapsto> ExportfileString bound_env)"
    by blast+
  from T5 h5 have c5: "fst (file_Close
         (snd (file_WriteString (snd (os_Create (disk False None True) (filename bound_env)))
            (filename bound_env) (ExportfileString bound_env)))
         (filename bound_env)) = Some (PathError ''close'' (filename bound_env))"
    "fst (Write bound_env (disk False None True)) = None"
    by blast+
  have d2: "files (snd (Write bound_env (disk True None False))) ''/home/dokku/app/ENV'' =
      Some ''export OLD=value''"
    by (simp add: c2(2)) (simp add: disk_def)
  have d3: "files (snd (Write bound_env (disk False (Some 3) False))) ''/home/dokku/app/ENV'' =
      Some ''exp''"
    by (simp add: c3(2) b s)
  have d4: "files (snd (Write bound_env (disk False None False))) ''/home/dokku/app/ENV'' =
     Some (''export A='' @ [quote] @ ''1'' @ [quote])"
    by (simp add: c4(2) b s)
  have d5: "close_fails (disk False None True) ''/home/dokku/app/ENV''"
    by (simp add: disk_def)
  show ?thesis
    using c1 c2(1) d2 c3(1) d3 c4(1) d4 d5 c5 by (simp only: b simp_thms)
qed

subsection \<open>Round trip through the plain format\<close>

lemma unescape_escaped:
  "unescape (concat (map (\<lambda>c. if c = quote then [quote, backslash, quote, quote]
      else if c = newline then newline_idiom else [c]) v)) = Some v"
  by (induction v) simp_all

lemma Replace_SingleQuoteEscape:
  "Replace (SingleQuoteEscape v) [newline] newline_idiom =
     concat (map (\<lambda>c. if c = quote then [quote, backslash, quote, quote]
       else if c = newline then newline_idiom else [c]) v)"
  by (induction v) (simp_all add: Replace_byte SingleQuoteEscape_Nil SingleQuoteEscape_Cons)

lemma SingleQuoteEscape_no_newline:
  "newline \<notin> set v \<Longrightarrow>
   SingleQuoteEscape v =
     concat (map (\<lambda>c. if c = quote then [quote, backslash, quote, quote]
       else if c = newline then newline_idiom else [c]) v)"
  by (induction v) (auto simp: SingleQuoteEscape_Nil SingleQuoteEscape_Cons)

lemma newline_SingleQuoteEscape:
  "newline \<in> set (SingleQuoteEscape v) \<longleftrightarrow> newline \<in> set v"
  using count_newline_SingleQuoteEscape [of v]
  by (metis count_list_0_iff)

lemma unescape_entry_value:
  assumes "EscapeNewlines e \<or> newline \<notin> set (index (env e) k)"
  shows "unescape (entry_value e k) = Some (index (env e) k)"
proof (cases "EscapeNewlines e")
  case True
  show ?thesis
    by (simp only: entry_value_escaped [OF True] Replace_SingleQuoteEscape unescape_escaped)
next
  case False
  with assms have "newline \<notin> set (index (env e) k)"
    by simp
  then have "SingleQuoteEscape (index (env e) k) =
     concat (map (\<lambda>c. if c = quote then [quote, backslash, quote, quote]
       else if c = newline then newline_idiom else [c]) (index (env e) k))"
    by (rule SingleQuoteEscape_no_newline)
  then show ?thesis
    by (simp only: entry_value_verbatim [OF False] unescape_escaped)
qed

lemma entry_value_no_newline:
  assumes "EscapeNewlines e \<or> newline \<notin> set (index (env e) k)"
  shows "newline \<notin> set (entry_value e k)"
proof (cases "EscapeNewlines e")
  case True
  show ?thesis
    by (simp only: entry_value_escaped [OF True] newline_notin_Replace not_False_eq_True)
next
  case False
  with assms have "newline \<notin> set (index (env e) k)"
    by simp
  then show ?thesis
    by (simp only: entry_value_verbatim [OF False] newline_SingleQuoteEscape not_False_eq_True)
qed

lemma split_lines_single: "newline \<notin> set l \<Longrightarrow> split_lines l = [l]"
  by (induction l) auto

lemma split_lines_append:
  "newline \<notin> set l \<Longrightarrow> split_lines (l @ newline # rest) = l # split_lines rest"
  by (induction l) auto

lemma split_lines_Join:
  "ls \<noteq> [] \<Longrightarrow> (\<And>l. l \<in> set ls \<Longrightarrow> newline \<notin> set l) \<Longrightarrow>
   split_lines (Join ls [newline]) = ls"
proof (induction ls "[newline]" rule: Join.induct)
  case 1
  then show ?case by simp
next
  case (2 x)
  then show ?case by (simp add: split_lines_single)
next
  case (3 x y ys)
  then show ?case by (simp add: split_lines_append)
qed

lemma not_prefix_export:
  assumes "CHR ''='' \<notin> set k" "\<not> prefix ''export '' k"
  shows "\<not> prefix ''export '' (k @ CHR ''='' # rest)"
proof
  assume "prefix ''export '' (k @ CHR ''='' # rest)"
  then consider "prefix ''export '' k"
    | us where "''export '' = k @ us" "prefix us (CHR ''='' # rest)"
    by (auto simp: prefix_append)
  then show False
  proof cases
    case 1
    with assms(2) show False by simp
  next
    case 2
    show False
    proof (cases us)
      case Nil
      with 2(1) assms(2) show False by simp
    next
      case (Cons u us')
      with 2(2) have "u = CHR ''=''" by simp
      with Cons 2(1) have "CHR ''='' \<in> set ''export ''"
        by (metis in_set_conv_decomp)
      then show False by simp
    qed
  qed
qed

lemma takeWhile_until: "c \<notin> set k \<Longrightarrow> takeWhile (\<lambda>x. x \<noteq> c) (k @ c # r) = k"
  by (induction k) auto

lemma parse_line_entry:
  assumes k: "k \<noteq> []" "CHR ''='' \<notin> set k" "\<not> prefix ''export '' k"
    and v: "EscapeNewlines e \<or> newline \<notin> set (index (env e) k)"
  shows "parse_line (entry e [] k) = Inr (Some (k, index (env e) k))"
proof -
  let ?v = "entry_value e k"
  let ?rest = "quote # ?v @ [quote]"
  let ?line = "k @ CHR ''='' # ?rest"
  have line: "entry e [] k = ?line"
    by (simp add: entry_def)
  have nb: "\<not> blank ?line"
    by (simp add: blank_def)
  have np: "\<not> prefix ''export '' ?line"
    by (rule not_prefix_export [OF k(2,3)])
  have key: "takeWhile (\<lambda>c. c \<noteq> CHR ''='') ?line = k"
    by (rule takeWhile_until [OF k(2)])
  have rest: "drop (Suc (length k)) ?line = ?rest"
    by simp
  have inner: "butlast (tl ?rest) = ?v"
    by simp
  have shape: "length k < length ?line \<and> k \<noteq> [] \<and> 2 \<le> length ?rest \<and>
      hd ?rest = quote \<and> last ?rest = quote"
    using k(1) by simp
  have "parse_line ?line = Inr (Some (k, index (env e) k))"
    unfolding parse_line_def Let_def
    by (simp only: nb np if_False key rest inner shape if_True simp_thms
        unescape_entry_value [OF v] option.case)
  then show ?thesis
    by (simp only: line)
qed

lemma parse_lines_entries:
  assumes "\<And>k. k \<in> set ks \<Longrightarrow>
     k \<noteq> [] \<and> CHR ''='' \<notin> set k \<and> \<not> prefix ''export '' k \<and>
     (EscapeNewlines e \<or> newline \<notin> set (index (env e) k))"
  shows "parse_lines (map (entry e []) ks) m =
     Inr (fold (\<lambda>k. fmupd k (index (env e) k)) ks m)"
  using assms
proof (induction ks arbitrary: m)
  case Nil
  then show ?case by simp
next
  case (Cons k ks)
  have "parse_line (entry e [] k) = Inr (Some (k, index (env e) k))"
    by (rule parse_line_entry) (use Cons.prems [of k] in simp_all)
  moreover have "parse_lines (map (entry e []) ks) (fmupd k (index (env e) k) m) =
      Inr (fold (\<lambda>k. fmupd k (index (env e) k)) ks (fmupd k (index (env e) k) m))"
    by (rule Cons.IH) (use Cons.prems in simp)
  ultimately show ?case
    by simp
qed

lemma fold_fmupd_lookup:
  "fmlookup (fold (\<lambda>k. fmupd k (f k)) ks m) x =
     (if x \<in> set ks then Some (f x) else fmlookup m x)"
  by (induction ks arbitrary: m) auto

lemma fold_Keys_env: "fold (\<lambda>k. fmupd k (index (env e) k)) (Keys e) fmempty = env e"
proof (rule fmap_ext)
  fix x
  show "fmlookup (fold (\<lambda>k. fmupd k (index (env e) k)) (Keys e) fmempty) x = fmlookup (env e) x"
    by (auto simp: fold_fmupd_lookup set_Keys index_def fmlookup_dom'_iff split: option.splits)
qed

lemma entry_no_newline:
  "newline \<notin> set k \<Longrightarrow> EscapeNewlines e \<or> newline \<notin> set (index (env e) k) \<Longrightarrow>
   newline \<notin> set (entry e [] k)"
  by (simp add: entry_def entry_value_no_newline)

text \<open>
  C1, for well-formed keys. When every key is non-empty, has no \<open>=\<close> and no newline
  and does not begin with \<open>export \<close>, and either the flag \<open>EscapeNewlines\<close> is set or no
  value has a newline, parsing the plain serialization succeeds and gives back exactly
  the entries: under the flag every value comes back, its quotes and newlines included.
\<close>

theorem roundtrip_plain:
  assumes keys: "\<forall>k \<in> fmdom' (env e).
      k \<noteq> [] \<and> CHR ''='' \<notin> set k \<and> newline \<notin> set k \<and> \<not> prefix ''export '' k"
    and vals: "EscapeNewlines e \<or> (\<forall>k \<in> fmdom' (env e). newline \<notin> set (index (env e) k))"
  shows "NewFromString (EnvfileString e) =
    Inr \<lparr>name = ''<unknown>'', env = env e, filename = [], EscapeNewlines = False\<rparr>"
proof -
  have v: "EscapeNewlines e \<or> newline \<notin> set (index (env e) k)" if "k \<in> set (Keys e)" for k
    using that vals by (auto simp: set_Keys)
  have ok: "k \<noteq> [] \<and> CHR ''='' \<notin> set k \<and> \<not> prefix ''export '' k \<and>
      (EscapeNewlines e \<or> newline \<notin> set (index (env e) k))" if "k \<in> set (Keys e)" for k
    using that keys v [OF that] by (simp add: set_Keys)
  have parsed: "parse_lines (map (entry e []) (Keys e)) fmempty = Inr (env e)"
    by (simp only: parse_lines_entries [OF ok] fold_Keys_env)
  have "parse_lines (split_lines (EnvfileString e)) fmempty = Inr (env e)"
  proof (cases "Keys e = []")
    case True
    then have "EnvfileString e = []"
      by (simp add: EnvfileString_def StringWithPrefixAndSeparator_def)
    moreover from True parsed have "Inr (env e) = (Inr fmempty :: error + (string, string) fmap)"
      by simp
    ultimately show ?thesis
      by (simp add: parse_line_def blank_def)
  next
    case False
    have "newline \<notin> set l" if "l \<in> set (map (entry e []) (Keys e))" for l
    proof -
      from that obtain k where k: "k \<in> set (Keys e)" "l = entry e [] k"
        by auto
      from k(1) keys have "newline \<notin> set k"
        by (simp add: set_Keys)
      then have "newline \<notin> set (entry e [] k)"
        using v [OF k(1)] by (rule entry_no_newline)
      then show ?thesis
        by (simp only: k(2) not_False_eq_True)
    qed
    with False have "split_lines (Join (map (entry e []) (Keys e)) [newline]) =
        map (entry e []) (Keys e)"
      by (intro split_lines_Join) simp_all
    then show ?thesis
      by (simp only: EnvfileString_def StringWithPrefixAndSeparator_def parsed)
  qed
  then show ?thesis
    by (simp add: NewFromString_def parseEnvFromReader_def)
qed

theorem roundtrip_plain_witness:
  "EnvfileString multiline_env =
     ''A='' @ [quote] @ ''it'' @ [quote, backslash, quote, quote] @ ''s'' @ newline_idiom @
     ''ok'' @ [quote, newline] @ ''B='' @ [quote, quote] \<and>
   NewFromString (EnvfileString multiline_env) =
     Inr \<lparr>name = ''<unknown>'', env = env multiline_env, filename = [],
          EscapeNewlines = False\<rparr> \<and>
   index (env multiline_env) ''A'' = ''it'' @ [quote] @ ''s'' @ [newline] @ ''ok'' \<and>
   NewFromString (EnvfileString quoted_env) =
     Inr \<lparr>name = ''<unknown>'', env = env quoted_env, filename = [],
          EscapeNewlines = False\<rparr>"
proof -
  have k1: "Keys multiline_env = [''A'', ''B'']"
    by code_simp
  have k2: "Keys quoted_env = [''A'', ''B'']"
    by code_simp
  have d1: "fmdom' (env multiline_env) = {''A'', ''B''}"
    using set_Keys [of multiline_env] by (simp only: k1 list.set)
  have d2: "fmdom' (env quoted_env) = {''A'', ''B''}"
    using set_Keys [of quoted_env] by (simp only: k2 list.set)
  have i1: "index (env multiline_env) ''A'' = ''it'' @ [quote] @ ''s'' @ [newline] @ ''ok''"
    by (simp add: multiline_env_def index_def fmlookup_of_list)
  have i2: "index (env quoted_env) ''A'' = ''it'' @ [quote] @ ''s''"
    "index (env quoted_env) ''B'' = []"
    by (simp_all add: quoted_env_def index_def fmlookup_of_list)
  have h1: "\<forall>k \<in> fmdom' (env multiline_env).
      k \<noteq> [] \<and> CHR ''='' \<notin> set k \<and> newline \<notin> set k \<and> \<not> prefix ''export '' k"
    by (simp add: d1)
  have v1: "EscapeNewlines multiline_env \<or>
      (\<forall>k \<in> fmdom' (env multiline_env). newline \<notin> set (index (env multiline_env) k))"
    by (simp add: multiline_env_def)
  have h2: "\<forall>k \<in> fmdom' (env quoted_env).
      k \<noteq> [] \<and> CHR ''='' \<notin> set k \<and> newline \<notin> set k \<and> \<not> prefix ''export '' k"
    by (simp add: d2)
  have v2: "EscapeNewlines quoted_env \<or>
      (\<forall>k \<in> fmdom' (env quoted_env). newline \<notin> set (index (env quoted_env) k))"
    by (simp add: d2 i2)
  have s: "EnvfileString multiline_env =
     ''A='' @ [quote] @ ''it'' @ [quote, backslash, quote, quote] @ ''s'' @ newline_idiom @
     ''ok'' @ [quote, newline] @ ''B='' @ [quote, quote]"
    by code_simp
  show ?thesis
    by (intro conjI)
      (rule s, rule roundtrip_plain [OF h1 v1], rule i1, rule roundtrip_plain [OF h2 v2])
qed

text \<open>
  Where the round trip fails. Keys are written as they are stored: a key that begins
  with \<open>export \<close> is read back without the token; a key with an \<open>=\<close>, a key with a
  newline and the empty key give a line that is a parse error. Without the flag a value
  with a newline is written over two lines, and the first is a parse error.
\<close>

theorem roundtrip_counterexample:
  "Keys export_key_env = [''export A''] \<and>
   EnvfileString export_key_env = ''export A='' @ [quote] @ ''v'' @ [quote] \<and>
   map_sum id Keys (NewFromString (EnvfileString export_key_env)) = Inr [''A''] \<and>
   map_sum id Keys (NewFromString (EnvfileString equals_key_env)) =
     Inl (ParseError (''A=B='' @ [quote] @ ''v'' @ [quote])) \<and>
   map_sum id Keys (NewFromString (EnvfileString newline_key_env)) = Inl (ParseError ''A'') \<and>
   map_sum id Keys (NewFromString (EnvfileString empty_key_env)) =
     Inl (ParseError (''='' @ [quote] @ ''v'' @ [quote])) \<and>
   EscapeNewlines (newline_env False) = False \<and>
   index (env (newline_env False)) ''A'' = [CHR ''a'', newline, CHR ''b''] \<and>
   map_sum id Keys (NewFromString (EnvfileString (newline_env False))) =
     Inl (ParseError (''A='' @ [quote] @ ''a''))"
proof -
  have c1: "Keys export_key_env = [''export A'']"
    by code_simp
  have c2: "EnvfileString export_key_env = ''export A='' @ [quote] @ ''v'' @ [quote]"
    by code_simp
  have c3: "map_sum id Keys (NewFromString (EnvfileString export_key_env)) = Inr [''A'']"
    by code_simp
  have c4: "map_sum id Keys (NewFromString (EnvfileString equals_key_env)) =
     Inl (ParseError (''A=B='' @ [quote] @ ''v'' @ [quote]))"
    by code_simp
  have c5: "map_sum id Keys (NewFromString (EnvfileString newline_key_env)) =
     Inl (ParseError ''A'')"
    by code_simp
  have c6: "map_sum id Keys (NewFromString (EnvfileString empty_key_env)) =
     Inl (ParseError (''='' @ [quote] @ ''v'' @ [quote]))"
    by code_simp
  have c7: "EscapeNewlines (newline_env False) = False"
    by (simp add: newline_env_def)
  have c8: "index (env (newline_env False)) ''A'' = [CHR ''a'', newline, CHR ''b'']"
    by code_simp
  have c9: "map_sum id Keys (NewFromString (EnvfileString (newline_env False))) =
     Inl (ParseError (''A='' @ [quote] @ ''a''))"
    by code_simp
  show ?thesis
    by (intro conjI) (rule c1, rule c2, rule c3, rule c4, rule c5, rule c6, rule c7, rule c8,
        rule c9)
qed

end
